theory Spec2Isabelle
  imports Complex_Main "HOL-Library.Multiset" "HOL-Library.Sublist"
begin

section \<open>Python values and builtins used by the plugin\<close>

text \<open>
  The plugin \<^verbatim>\<open>de_dts_without_de_ac3_eac3_truehd\<close> (file \<^verbatim>\<open>plugin.py\<close>) works on
  Python strings and on the values that \<^verbatim>\<open>json.loads\<close> produces. A Python \<^verbatim>\<open>str\<close> is
  modelled as a HOL \<open>string\<close>; a \<open>char\<close> stands for the code point with the same number
  (0 to 255). The three string builtins the plugin calls are written out on that range
  as CPython defines them: \<^verbatim>\<open>str.isspace\<close> holds for the code points 9 to 13, 28 to 32,
  133 and 160; \<^verbatim>\<open>str.lower\<close> adds 32 to the code points 65 to 90 and 192 to 222 other
  than 215 (\<open>is_upper\<close>) and leaves every other code point as it is.
\<close>

definition py_isspace :: "char \<Rightarrow> bool" where
  "py_isspace c =
     (let n = (of_char c :: nat)
      in (9 \<le> n \<and> n \<le> 13) \<or> (28 \<le> n \<and> n \<le> 32) \<or> n = 133 \<or> n = 160)"

definition is_upper :: "char \<Rightarrow> bool" where
  "is_upper c =
     (let n = (of_char c :: nat)
      in (65 \<le> n \<and> n \<le> 90) \<or> (192 \<le> n \<and> n \<le> 222 \<and> n \<noteq> 215))"

definition lower_char :: "char \<Rightarrow> char" where
  "lower_char c = (if is_upper c then char_of ((of_char c :: nat) + 32) else c)"

text \<open>\<^verbatim>\<open>s.lower()\<close> and \<^verbatim>\<open>s.strip()\<close>.\<close>

definition lower :: "string \<Rightarrow> string" where
  "lower s = map lower_char s"

definition strip :: "string \<Rightarrow> string" where
  "strip s = rev (dropWhile py_isspace (rev (dropWhile py_isspace s)))"

text \<open>
  \<^verbatim>\<open>s.split(",")\<close>: the pieces between the commas, in order. The result always has at
  least one piece (\<^verbatim>\<open>"".split(",")\<close> is \<^verbatim>\<open>[""]\<close>).
\<close>

fun split_comma :: "string \<Rightarrow> string list" where
  "split_comma [] = [[]]"
| "split_comma (c # cs) =
     (if c = CHR '','' then [] # split_comma cs
      else (case split_comma cs of
              [] \<Rightarrow> [[c]]
            | p # ps \<Rightarrow> (c # p) # ps))"

text \<open>\<^verbatim>\<open>",".join(pieces)\<close>, used only to state what \<open>split_comma\<close> computes.\<close>

fun join_comma :: "string list \<Rightarrow> string" where
  "join_comma [] = []"
| "join_comma [p] = p"
| "join_comma (p # q # ps) = p @ CHR '','' # join_comma (q # ps)"

section \<open>The tag normalizer\<close>

text \<open>
  \<^verbatim>\<open>
  def _parse_lang_tags(raw: str) -> List[str]:
      if not raw:
          return[]
      return [t.strip().lower() for t in raw.split(",") if t.strip()]
  \<close>
  The argument is a string or \<^verbatim>\<open>None\<close>; \<^verbatim>\<open>not raw\<close> holds for \<^verbatim>\<open>None\<close> and for the
  empty string.
\<close>

definition parse_lang_tags :: "string option \<Rightarrow> string list" where
  "parse_lang_tags raw =
     (case raw of
        None \<Rightarrow> []
      | Some r \<Rightarrow>
          if r = [] then []
          else map (\<lambda>t. lower (strip t)) (filter (\<lambda>t. strip t \<noteq> []) (split_comma r)))"

text \<open>
  The normalizer as the specification words it: split on commas, trim each piece, drop
  the empty pieces, lowercase what remains.
\<close>

definition normalize_spec :: "string \<Rightarrow> string list" where
  "normalize_spec raw = map lower (filter (\<lambda>p. p \<noteq> []) (map strip (split_comma raw)))"

section \<open>Decoded JSON and the Python operations on it\<close>

text \<open>
  What \<^verbatim>\<open>json.loads\<close> returns: \<^verbatim>\<open>None\<close>, a bool, an int, a float, a string, a list or
  a dict with string keys. A dict is an association list read with \<open>map_of\<close>. The
  plugin only asks a number whether it is zero, so a float is a real number.
\<close>

datatype json =
    JNull
  | JBool bool
  | JInt int
  | JFloat real
  | JStr string
  | JArr "json list"
  | JObj "(string \<times> json) list"

text \<open>
  The exceptions that can leave the plugin's functions: \<^verbatim>\<open>AttributeError\<close> and
  \<^verbatim>\<open>TypeError\<close> from the plugin's own operations on decoded values, and the two that
  \<^verbatim>\<open>json.loads\<close> raises beside \<^verbatim>\<open>JSONDecodeError\<close>: \<^verbatim>\<open>RecursionError\<close> on a document nested
  too deeply, and a plain \<^verbatim>\<open>ValueError\<close> on an integer literal with more digits than the
  interpreter converts.
\<close>

datatype error = AttributeError | TypeError | RecursionError | ValueError

text \<open>Python truthiness, as \<^verbatim>\<open>x or default\<close> and \<^verbatim>\<open>if not x\<close> test it.\<close>

fun truthy :: "json \<Rightarrow> bool" where
  "truthy JNull = False"
| "truthy (JBool b) = b"
| "truthy (JInt i) = (i \<noteq> 0)"
| "truthy (JFloat r) = (r \<noteq> 0)"
| "truthy (JStr s) = (s \<noteq> [])"
| "truthy (JArr xs) = (xs \<noteq> [])"
| "truthy (JObj kvs) = (kvs \<noteq> [])"

text \<open>\<^verbatim>\<open>x or d\<close>.\<close>

definition py_or :: "json \<Rightarrow> json \<Rightarrow> json" where
  "py_or x d = (if truthy x then x else d)"

text \<open>
  \<^verbatim>\<open>x.get(key)\<close>: only a dict has the method; a missing key gives \<^verbatim>\<open>None\<close>.
\<close>

fun py_get :: "json \<Rightarrow> string \<Rightarrow> error + json" where
  "py_get (JObj kvs) k = Inr (case map_of kvs k of None \<Rightarrow> JNull | Some v \<Rightarrow> v)"
| "py_get _ k = Inl AttributeError"

text \<open>\<^verbatim>\<open>x.lower()\<close>: only a string has the method.\<close>

fun py_lower :: "json \<Rightarrow> error + string" where
  "py_lower (JStr s) = Inr (lower s)"
| "py_lower _ = Inl AttributeError"

text \<open>
  \<^verbatim>\<open>for s in x\<close>: a list gives its elements, a string its characters, a dict its keys;
  nothing else is iterable.
\<close>

fun py_iter :: "json \<Rightarrow> error + json list" where
  "py_iter (JArr xs) = Inr xs"
| "py_iter (JStr s) = Inr (map (\<lambda>c. JStr [c]) s)"
| "py_iter (JObj kvs) = Inr (map (\<lambda>kv. JStr (fst kv)) kvs)"
| "py_iter _ = Inl TypeError"

section \<open>The stream prober\<close>

text \<open>
  What happens outside the plugin when it probes a path: \<^verbatim>\<open>subprocess.run\<close> raises (the
  executable is missing, the exit code is not zero); or \<^verbatim>\<open>json.loads\<close> raises
  \<^verbatim>\<open>JSONDecodeError\<close> on the tool's output (\<open>DecodeRaised\<close>); or \<^verbatim>\<open>json.loads\<close> raises an
  exception that is no \<^verbatim>\<open>JSONDecodeError\<close> (\<open>LoadsRaised\<close>), which the second handler
  does not catch; or the output decodes to a value.
\<close>

datatype probe = RunRaised | DecodeRaised | LoadsRaised error | Decoded json

text \<open>
  \<^verbatim>\<open>[s for s in streams if s.get("codec_type") == "audio"]\<close>: the first element without
  a \<^verbatim>\<open>get\<close> method ends the comprehension with its exception.
\<close>

fun audio_only :: "json list \<Rightarrow> error + json list" where
  "audio_only [] = Inr []"
| "audio_only (s # rest) =
     (case py_get s ''codec_type'' of
        Inl e \<Rightarrow> Inl e
      | Inr t \<Rightarrow>
          (case audio_only rest of
             Inl e \<Rightarrow> Inl e
           | Inr kept \<Rightarrow> Inr (if t = JStr ''audio'' then s # kept else kept)))"

text \<open>
  \<^verbatim>\<open>
  def _ffprobe_audio_streams(path):
      try:
          proc = subprocess.run(cmd, stdout=PIPE, stderr=PIPE, check=True, text=True)
      except Exception as e:
          return []
      try:
          data = json.loads(proc.stdout)
      except json.JSONDecodeError as e:
          return []
      streams = data.get("streams") or []
      return [s for s in streams if s.get("codec_type") == "audio"]
  \<close>
  The first argument is the world outside: what probing each path leads to.
\<close>

definition ffprobe_audio_streams :: "(string \<Rightarrow> probe) \<Rightarrow> string \<Rightarrow> error + json list" where
  "ffprobe_audio_streams tool path =
     (case tool path of
        RunRaised \<Rightarrow> Inr []
      | DecodeRaised \<Rightarrow> Inr []
      | LoadsRaised e \<Rightarrow> Inl e
      | Decoded data \<Rightarrow>
          (case py_get data ''streams'' of
             Inl e \<Rightarrow> Inl e
           | Inr v \<Rightarrow>
               (case py_iter (py_or v (JArr [])) of
                  Inl e \<Rightarrow> Inl e
                | Inr streams \<Rightarrow> audio_only streams)))"

text \<open>A tool that prints the same JSON document for every path.\<close>

definition tool_prints :: "json \<Rightarrow> string \<Rightarrow> probe" where
  "tool_prints doc path = Decoded doc"

section \<open>The admission evaluator\<close>

text \<open>
  \<^verbatim>\<open>
  good_codecs = {"ac3", "eac3"}
  if treat_truehd_as_good:
      good_codecs.add("truehd")
  \<close>
\<close>

definition good_codecs :: "bool \<Rightarrow> string set" where
  "good_codecs treat_truehd_as_good =
     (if treat_truehd_as_good then insert ''truehd'' {''ac3'', ''eac3''}
      else {''ac3'', ''eac3''})"

text \<open>\<^verbatim>\<open>codec = (stream.get("codec_name") or "").lower()\<close>\<close>

definition stream_codec :: "json \<Rightarrow> error + string" where
  "stream_codec stream =
     (case py_get stream ''codec_name'' of
        Inl e \<Rightarrow> Inl e
      | Inr v \<Rightarrow> py_lower (py_or v (JStr [])))"

text \<open>
  \<^verbatim>\<open>
  tags = stream.get("tags") or {}
  lang = (tags.get("language") or "").lower()
  \<close>
\<close>

definition stream_lang :: "json \<Rightarrow> error + string" where
  "stream_lang stream =
     (case py_get stream ''tags'' of
        Inl e \<Rightarrow> Inl e
      | Inr v \<Rightarrow>
          (case py_get (py_or v (JObj [])) ''language'' of
             Inl e \<Rightarrow> Inl e
           | Inr l \<Rightarrow> py_lower (py_or l (JStr []))))"

text \<open>
  The test before \<^verbatim>\<open>continue\<close>: \<^verbatim>\<open>lang_tags and lang not in lang_tags\<close>.
\<close>

definition skipped :: "string list \<Rightarrow> string \<Rightarrow> bool" where
  "skipped lang_tags lang = (lang_tags \<noteq> [] \<and> lang \<notin> set lang_tags)"

text \<open>
  The loop over the streams, with the two flags as arguments, and the value returned
  after it:
  \<^verbatim>\<open>
  for stream in streams:
      codec = ...
      tags = ...
      lang = ...
      if lang_tags and lang not in lang_tags:
          continue
      if codec.startswith("dts"):
          has_de_dts = True
      if codec in good_codecs:
          has_de_good = True
  return has_de_dts and not has_de_good
  \<close>
\<close>

fun scan_streams :: "json list \<Rightarrow> string list \<Rightarrow> string set \<Rightarrow> bool \<Rightarrow> bool \<Rightarrow> error + bool" where
  "scan_streams [] lang_tags good has_de_dts has_de_good = Inr (has_de_dts \<and> \<not> has_de_good)"
| "scan_streams (stream # rest) lang_tags good has_de_dts has_de_good =
     (case stream_codec stream of
        Inl e \<Rightarrow> Inl e
      | Inr codec \<Rightarrow>
          (case stream_lang stream of
             Inl e \<Rightarrow> Inl e
           | Inr lang \<Rightarrow>
               if skipped lang_tags lang
               then scan_streams rest lang_tags good has_de_dts has_de_good
               else scan_streams rest lang_tags good
                      (if prefix ''dts'' codec then True else has_de_dts)
                      (if codec \<in> good then True else has_de_good)))"

definition has_de_dts_and_no_de_good :: "json list \<Rightarrow> string list \<Rightarrow> bool \<Rightarrow> error + bool" where
  "has_de_dts_and_no_de_good streams lang_tags treat_truehd_as_good =
     scan_streams streams lang_tags (good_codecs treat_truehd_as_good) False False"

text \<open>
  Names for what the claims speak of. The lowercased codec name and language tag of a
  stream that can be read (the empty string stands in where reading raises):
\<close>

definition codec_of :: "json \<Rightarrow> string" where
  "codec_of stream = (case stream_codec stream of Inl e \<Rightarrow> [] | Inr codec \<Rightarrow> codec)"

definition lang_of :: "json \<Rightarrow> string" where
  "lang_of stream = (case stream_lang stream of Inl e \<Rightarrow> [] | Inr lang \<Rightarrow> lang)"

text \<open>A stream both of whose fields the loop body reads without an exception.\<close>

definition readable :: "json \<Rightarrow> bool" where
  "readable stream =
     (case stream_codec stream of
        Inl e \<Rightarrow> False
      | Inr codec \<Rightarrow> (case stream_lang stream of Inl e \<Rightarrow> False | Inr lang \<Rightarrow> True))"

text \<open>
  A stream descriptor as the probing tool reports it: a dict whose \<^verbatim>\<open>codec_name\<close> is a
  string, null or absent, and whose \<^verbatim>\<open>tags\<close> is null, absent, or a dict whose
  \<^verbatim>\<open>language\<close> is a string, null or absent.
\<close>

fun text_or_missing :: "json option \<Rightarrow> bool" where
  "text_or_missing None = True"
| "text_or_missing (Some JNull) = True"
| "text_or_missing (Some (JStr s)) = True"
| "text_or_missing (Some _) = False"

fun tags_or_missing :: "json option \<Rightarrow> bool" where
  "tags_or_missing None = True"
| "tags_or_missing (Some JNull) = True"
| "tags_or_missing (Some (JObj tags)) = text_or_missing (map_of tags ''language'')"
| "tags_or_missing (Some _) = False"

fun descriptor :: "json \<Rightarrow> bool" where
  "descriptor (JObj kvs) =
     (text_or_missing (map_of kvs ''codec_name'') \<and> tags_or_missing (map_of kvs ''tags''))"
| "descriptor _ = False"

text \<open>A descriptor with the given codec name and language tag.\<close>

definition audio_stream :: "string \<Rightarrow> string \<Rightarrow> json" where
  "audio_stream codec lang =
     JObj [(''codec_name'', JStr codec), (''codec_type'', JStr ''audio''),
           (''tags'', JObj [(''language'', JStr lang)])]"

section \<open>The file test runner\<close>

text \<open>
  The part of the host's \<^verbatim>\<open>data\<close> dict that the runner reads or writes. \<^verbatim>\<open>path\<close> is a
  string or \<^verbatim>\<open>None\<close>; \<^verbatim>\<open>add_file_to_pending_tasks\<close> is \<^verbatim>\<open>True\<close>, \<^verbatim>\<open>False\<close> or not yet
  decided (\<open>None\<close>). An entry of \<^verbatim>\<open>issues\<close> is a dict with the keys \<^verbatim>\<open>id\<close> and
  \<^verbatim>\<open>message\<close>.
\<close>

record issue =
  issue_id :: string
  message :: string

record data =
  library_id :: int
  path :: "string option"
  issues :: "issue list"
  add_file_to_pending_tasks :: "bool option"

text \<open>
  The two settings of the plugin, as \<^verbatim>\<open>Settings.get_setting\<close> returns them for a
  library: the raw language tags, and the TrueHD flag after \<^verbatim>\<open>bool(...)\<close>. The class
  \<^verbatim>\<open>PluginSettings\<close> belongs to the host, so the lookup by library is an argument of the
  runner. \<open>default_settings\<close> are the defaults the plugin declares.
\<close>

record settings =
  preferred_language_tags :: "string option"
  treat_truehd_as_good_codec :: bool

definition default_settings :: settings where
  "default_settings =
     \<lparr>preferred_language_tags = Some ''deu,de,ger'', treat_truehd_as_good_codec = True\<rparr>"

definition plugin_id :: string where
  "plugin_id = ''de_dts_without_de_ac3_eac3_truehd''"

text \<open>The four messages; \<open>CHR 0xFC\<close> and \<open>CHR 0xE4\<close> are the umlauts u and a.\<close>

definition msg_no_path :: string where
  "msg_no_path = ''Kein Dateipfad im Plugin-Runner verf'' @ [CHR 0xFC] @ ''gbar.''"

definition msg_no_streams :: string where
  "msg_no_streams =
     ''ffprobe lieferte keine Audio-Streams - Datei wird nicht explizit gefiltert.''"

definition msg_candidate :: string where
  "msg_candidate =
     ''Datei enth'' @ [CHR 0xE4] @ ''lt DE-DTS, aber keine DE-AC3/EAC3/TrueHD - f''
       @ [CHR 0xFC] @ ''r EAC3-Transcode zulassen.''"

definition msg_ignored :: string where
  "msg_ignored =
     ''Datei ignoriert: Entweder keine DE-DTS-Spur oder bereits DE-AC3/EAC3/TrueHD vorhanden.''"

text \<open>\<^verbatim>\<open>data["issues"].append({"id": ..., "message": msg})\<close>\<close>

definition append_issue :: "string \<Rightarrow> data \<Rightarrow> data" where
  "append_issue msg d = d\<lparr>issues := issues d @ [\<lparr>issue_id = plugin_id, message = msg\<rparr>]\<rparr>"

text \<open>
  \<^verbatim>\<open>
  def on_library_management_file_test(data):
      settings = Settings(library_id=data.get("library_id"))
      lang_raw = settings.get_setting("Preferred language tags (comma separated)")
      lang_tags = _parse_lang_tags(lang_raw)
      treat_truehd = bool(settings.get_setting("Treat Dolby TrueHD as good codec"))
      path = data.get("path")
      if not path:
          data["issues"].append({...})
          return
      streams = _ffprobe_audio_streams(path)
      if not streams:
          data["issues"].append({...})
          return
      candidate = _has_de_dts_and_no_de_good(streams=streams, lang_tags=lang_tags,
                                             treat_truehd_as_good=treat_truehd)
      if candidate:
          data["add_file_to_pending_tasks"] = True
          data["issues"].append({...})
      else:
          data["add_file_to_pending_tasks"] = False
          data["issues"].append({...})
      return
  \<close>
  The runner changes \<^verbatim>\<open>data\<close> in place; the model returns the changed record, or the
  exception that left the runner.
\<close>

definition on_library_management_file_test ::
    "(int \<Rightarrow> settings) \<Rightarrow> (string \<Rightarrow> probe) \<Rightarrow> data \<Rightarrow> error + data" where
  "on_library_management_file_test get_settings tool d =
     (let s = get_settings (library_id d);
          lang_tags = parse_lang_tags (preferred_language_tags s);
          treat_truehd = treat_truehd_as_good_codec s
      in case path d of
           None \<Rightarrow> Inr (append_issue msg_no_path d)
         | Some p \<Rightarrow>
             if p = [] then Inr (append_issue msg_no_path d)
             else
               (case ffprobe_audio_streams tool p of
                  Inl e \<Rightarrow> Inl e
                | Inr streams \<Rightarrow>
                    if streams = [] then Inr (append_issue msg_no_streams d)
                    else
                      (case has_de_dts_and_no_de_good streams lang_tags treat_truehd of
                         Inl e \<Rightarrow> Inl e
                       | Inr candidate \<Rightarrow>
                           if candidate
                           then Inr (append_issue msg_candidate
                                       (d\<lparr>add_file_to_pending_tasks := Some True\<rparr>))
                           else Inr (append_issue msg_ignored
                                       (d\<lparr>add_file_to_pending_tasks := Some False\<rparr>)))))"

text \<open>
  Probing is inconclusive when no path is supplied or the prober returns no stream.
\<close>

definition inconclusive :: "(string \<Rightarrow> probe) \<Rightarrow> data \<Rightarrow> bool" where
  "inconclusive tool d =
     (case path d of
        None \<Rightarrow> True
      | Some p \<Rightarrow> p = [] \<or> ffprobe_audio_streams tool p = Inr [])"

text \<open>
  Two fixed surroundings for running the plugin on examples: a tool whose invocation
  always fails, and a host in which every library has the default settings.
\<close>

definition tool_fails :: "string \<Rightarrow> probe" where
  "tool_fails p = RunRaised"

definition library_defaults :: "int \<Rightarrow> settings" where
  "library_defaults lib = default_settings"

section \<open>Properties of the string builtins\<close>

lemma of_char_lower_upper:
  assumes "is_upper c"
  shows "(of_char (lower_char c) :: nat) = of_char c + 32"
proof -
  have "(of_char c :: nat) + 32 < 256" using assms by (auto simp: is_upper_def Let_def)
  then have "(of_char (char_of ((of_char c :: nat) + 32)) :: nat) = of_char c + 32"
    by (simp add: of_char_of)
  then show ?thesis using assms by (simp add: lower_char_def)
qed

lemma lower_char_not_upper: "\<not> is_upper (lower_char c)"
proof (cases "is_upper c")
  case True
  from of_char_lower_upper [OF True]
  have n: "(of_char (lower_char c) :: nat) = of_char c + 32" .
  show ?thesis using True unfolding is_upper_def Let_def n by auto
next
  case False
  then show ?thesis by (simp add: lower_char_def)
qed

lemma lower_char_idem: "lower_char (lower_char c) = lower_char c"
  using lower_char_not_upper [of c] by (subst lower_char_def) simp

lemma isspace_lower_char: "py_isspace (lower_char c) = py_isspace c"
proof (cases "is_upper c")
  case True
  from of_char_lower_upper [OF True]
  have n: "(of_char (lower_char c) :: nat) = of_char c + 32" .
  have "\<not> py_isspace (lower_char c)"
    using True unfolding py_isspace_def is_upper_def Let_def n by auto
  moreover have "\<not> py_isspace c"
    using True unfolding py_isspace_def is_upper_def Let_def by auto
  ultimately show ?thesis by simp
next
  case False
  then show ?thesis by (simp add: lower_char_def)
qed

lemma lower_idem: "lower (lower s) = lower s"
  by (simp add: lower_def lower_char_idem)

lemma lower_eq_Nil: "lower s = [] \<longleftrightarrow> s = []"
  by (simp add: lower_def)

lemma dropWhile_isspace_lower:
  "dropWhile py_isspace (lower s) = lower (dropWhile py_isspace s)"
  by (induction s) (simp_all add: lower_def isspace_lower_char)

lemma rev_lower: "rev (lower s) = lower (rev s)"
  by (simp add: lower_def rev_map)

lemma strip_lower: "strip (lower s) = lower (strip s)"
  by (simp add: strip_def dropWhile_isspace_lower rev_lower)

lemma dropWhile_hd_id: "xs = [] \<or> \<not> P (hd xs) \<Longrightarrow> dropWhile P xs = xs"
  by (cases xs) auto

lemma dropWhile_hd: "dropWhile P xs = [] \<or> \<not> P (hd (dropWhile P xs))"
  by (induction xs) auto

lemma trim_right_hd:
  assumes "zs = [] \<or> \<not> P (hd zs)"
  shows "rev (dropWhile P (rev zs)) = [] \<or> \<not> P (hd (rev (dropWhile P (rev zs))))"
proof (cases "rev (dropWhile P (rev zs)) = []")
  case True
  then show ?thesis by simp
next
  case False
  have "rev zs = takeWhile P (rev zs) @ dropWhile P (rev zs)" by simp
  then have "rev (rev zs) = rev (takeWhile P (rev zs) @ dropWhile P (rev zs))"
    by (rule arg_cong)
  then have zs: "zs = rev (dropWhile P (rev zs)) @ rev (takeWhile P (rev zs))"
    by (simp only: rev_rev_ident rev_append)
  have "hd zs = hd (rev (dropWhile P (rev zs)) @ rev (takeWhile P (rev zs)))"
    using zs by simp
  also have "\<dots> = hd (rev (dropWhile P (rev zs)))" using False by (rule hd_append2)
  finally have h: "hd zs = hd (rev (dropWhile P (rev zs)))" .
  have "zs \<noteq> []" using False by auto
  then show ?thesis using assms h by simp
qed

lemma dropWhile_rev_dropWhile:
  "dropWhile P (rev (dropWhile P (rev (dropWhile P xs)))) = rev (dropWhile P (rev (dropWhile P xs)))"
  by (rule dropWhile_hd_id, rule trim_right_hd, rule dropWhile_hd)

lemma strip_idem: "strip (strip s) = strip s"
  by (simp add: strip_def dropWhile_rev_dropWhile)

lemma split_comma_nonempty: "split_comma s \<noteq> []"
  by (induction s) (auto split: list.splits)

lemma join_split_comma: "join_comma (split_comma s) = s"
proof (induction s)
  case Nil
  show ?case by simp
next
  case (Cons c cs)
  obtain p ps where sp: "split_comma cs = p # ps"
    using split_comma_nonempty [of cs] by (cases "split_comma cs") auto
  show ?case
  proof (cases "c = CHR '',''")
    case True
    then show ?thesis using Cons sp by simp
  next
    case False
    then show ?thesis using Cons sp by (cases ps) simp_all
  qed
qed

lemma split_comma_no_comma: "p \<in> set (split_comma s) \<Longrightarrow> CHR '','' \<notin> set p"
proof (induction s arbitrary: p)
  case Nil
  then show ?case by simp
next
  case (Cons c cs)
  obtain q qs where sp: "split_comma cs = q # qs"
    using split_comma_nonempty [of cs] by (cases "split_comma cs") auto
  show ?case
  proof (cases "c = CHR '',''")
    case True
    then show ?thesis using Cons by auto
  next
    case False
    then show ?thesis using Cons sp by auto
  qed
qed

lemma parse_lang_tags_refines: "parse_lang_tags (Some raw) = normalize_spec raw"
proof (cases "raw = []")
  case True
  then show ?thesis by (simp add: parse_lang_tags_def normalize_spec_def strip_def)
next
  case False
  then show ?thesis
    by (simp add: parse_lang_tags_def normalize_spec_def filter_map comp_def)
qed

lemma parse_lang_tags_tokens:
  assumes "t \<in> set (parse_lang_tags raw)"
  shows "t \<noteq> [] \<and> lower t = t \<and> strip t = t"
proof -
  from assms obtain r p where r: "raw = Some r" "r \<noteq> []"
    and p: "p \<in> set (split_comma r)" "strip p \<noteq> []" "t = lower (strip p)"
    by (auto simp: parse_lang_tags_def split: option.splits if_splits)
  show ?thesis
    using p by (simp add: lower_eq_Nil lower_idem strip_lower strip_idem)
qed

lemma empty_token_not_parsed: "[] \<notin> set (parse_lang_tags raw)"
  using parse_lang_tags_tokens [of "[]" raw] by blast

text \<open>Unfolding these evaluates the string builtins on a literal.\<close>

lemmas str_eval = lower_def lower_char_def is_upper_def py_isspace_def strip_def
  char_of_def bit_iff_odd Let_def

section \<open>Properties of the evaluator's loop\<close>

text \<open>
  Reading a stream raises nothing but \<^verbatim>\<open>AttributeError\<close>, and the loop reads every stream
  before it tests the filter. So the evaluator raises exactly when some stream cannot be
  read, and otherwise returns what the two flags say after the whole scan.
\<close>

lemma py_get_error: "py_get x k = Inl e \<Longrightarrow> e = AttributeError"
  by (cases x) auto

lemma py_lower_error: "py_lower x = Inl e \<Longrightarrow> e = AttributeError"
  by (cases x) auto

lemma stream_codec_error: "stream_codec s = Inl e \<Longrightarrow> e = AttributeError"
  by (auto simp: stream_codec_def split: sum.splits dest: py_get_error py_lower_error)

lemma stream_lang_error: "stream_lang s = Inl e \<Longrightarrow> e = AttributeError"
  by (auto simp: stream_lang_def split: sum.splits dest: py_get_error py_lower_error)

lemma readable_iff:
  "readable s \<longleftrightarrow> stream_codec s = Inr (codec_of s) \<and> stream_lang s = Inr (lang_of s)"
  by (auto simp: readable_def codec_of_def lang_of_def split: sum.splits)

lemma not_readable_cases:
  "\<not> readable s \<Longrightarrow> stream_codec s = Inl AttributeError
     \<or> (\<exists>c. stream_codec s = Inr c \<and> stream_lang s = Inl AttributeError)"
  by (auto simp: readable_def split: sum.splits dest: stream_codec_error stream_lang_error)

lemma scan_streams_unreadable:
  "\<not> (\<forall>s\<in>set streams. readable s) \<Longrightarrow>
   scan_streams streams lang_tags good d g = Inl AttributeError"
proof (induction streams arbitrary: d g)
  case Nil
  then show ?case by simp
next
  case (Cons s rest)
  show ?case
  proof (cases "readable s")
    case True
    then have rest: "\<not> (\<forall>s\<in>set rest. readable s)" using Cons.prems by simp
    from True have r: "stream_codec s = Inr (codec_of s)" "stream_lang s = Inr (lang_of s)"
      by (simp_all add: readable_iff)
    show ?thesis using Cons.IH [OF rest] by (simp add: r)
  next
    case False
    from not_readable_cases [OF this] show ?thesis by auto
  qed
qed

lemma scan_streams_readable:
  "\<forall>s\<in>set streams. readable s \<Longrightarrow>
   scan_streams streams lang_tags good d g =
     Inr ((d \<or> (\<exists>s\<in>set streams. \<not> skipped lang_tags (lang_of s) \<and> prefix ''dts'' (codec_of s)))
          \<and> \<not> (g \<or> (\<exists>s\<in>set streams. \<not> skipped lang_tags (lang_of s) \<and> codec_of s \<in> good)))"
proof (induction streams arbitrary: d g)
  case Nil
  then show ?case by simp
next
  case (Cons s rest)
  then have "readable s" and rest: "\<forall>s\<in>set rest. readable s" by simp_all
  then have r: "stream_codec s = Inr (codec_of s)" "stream_lang s = Inr (lang_of s)"
    by (simp_all add: readable_iff)
  show ?case
  proof (cases "skipped lang_tags (lang_of s)")
    case True
    then show ?thesis using Cons.IH [OF rest] by (simp add: r)
  next
    case False
    then show ?thesis using Cons.IH [OF rest] by (auto simp add: r)
  qed
qed

lemma evaluate_char:
  "has_de_dts_and_no_de_good streams lang_tags treat =
     (if \<forall>s\<in>set streams. readable s
      then Inr ((\<exists>s\<in>set streams. \<not> skipped lang_tags (lang_of s) \<and> prefix ''dts'' (codec_of s))
                \<and> \<not> (\<exists>s\<in>set streams. \<not> skipped lang_tags (lang_of s)
                                          \<and> codec_of s \<in> good_codecs treat))
      else Inl AttributeError)"
  by (simp add: has_de_dts_and_no_de_good_def scan_streams_readable scan_streams_unreadable)

lemma text_or_missing_lower:
  "text_or_missing v \<Longrightarrow>
   \<exists>t. py_lower (py_or (case v of None \<Rightarrow> JNull | Some x \<Rightarrow> x) (JStr [])) = Inr t"
  by (cases v rule: text_or_missing.cases) (simp_all add: py_or_def)

lemma descriptor_codec: "descriptor s \<Longrightarrow> \<exists>c. stream_codec s = Inr c"
  by (cases s) (simp_all add: stream_codec_def text_or_missing_lower)

lemma tags_or_missing_lang:
  assumes "tags_or_missing v"
  shows "\<exists>l. (case py_get (py_or (case v of None \<Rightarrow> JNull | Some x \<Rightarrow> x) (JObj [])) ''language'' of
          Inl e \<Rightarrow> Inl e
        | Inr l \<Rightarrow> py_lower (py_or l (JStr []))) = Inr l"
proof (cases v rule: tags_or_missing.cases)
  case (3 tags)
  then have t: "text_or_missing (map_of tags ''language'')" using assms by simp
  have get: "py_get (py_or (JObj tags) (JObj [])) ''language''
           = Inr (case map_of tags ''language'' of None \<Rightarrow> JNull | Some x \<Rightarrow> x)"
    by (cases tags) (simp_all add: py_or_def)
  show ?thesis
    using text_or_missing_lower [OF t] by (simp add: 3 get)
qed (use assms in \<open>simp_all add: py_or_def\<close>)

lemma descriptor_lang: "descriptor s \<Longrightarrow> \<exists>l. stream_lang s = Inr l"
  by (cases s) (simp_all add: stream_lang_def tags_or_missing_lang)

lemma descriptor_readable: "descriptor s \<Longrightarrow> readable s"
  using descriptor_codec [of s] descriptor_lang [of s]
  by (auto simp: readable_def)

text \<open>Unfolding these evaluates the evaluator on literal streams.\<close>

lemmas stream_eval = has_de_dts_and_no_de_good_def good_codecs_def stream_codec_def
  stream_lang_def py_or_def skipped_def audio_stream_def codec_of_def lang_of_def

lemma codec_of_audio_stream: "codec_of (audio_stream codec lang) = lower codec"
  by (simp add: codec_of_def stream_codec_def audio_stream_def py_or_def lower_def)

lemma lang_of_audio_stream: "lang_of (audio_stream codec lang) = lower lang"
  by (simp add: lang_of_def stream_lang_def audio_stream_def py_or_def lower_def)

lemma descriptor_audio_stream: "descriptor (audio_stream codec lang)"
  by (simp add: audio_stream_def)

lemma lower_deu: "lower ''deu'' = ''deu''" and lower_dts: "lower ''dts'' = ''dts''"
  by (simp_all add: str_eval)

text \<open>
  A stream that can be read and is skipped, or whose codec is neither a DTS codec nor an
  acceptable one, can be taken out of the list without changing the result.
\<close>

lemma evaluate_drop_neutral:
  assumes "readable s"
    and "skipped lang_tags (lang_of s)
         \<or> (\<not> prefix ''dts'' (codec_of s) \<and> codec_of s \<notin> good_codecs treat)"
  shows "has_de_dts_and_no_de_good (xs @ s # ys) lang_tags treat
         = has_de_dts_and_no_de_good (xs @ ys) lang_tags treat"
  using assms unfolding evaluate_char by auto

lemma empty_not_good: "[] \<notin> good_codecs treat"
  by (simp add: good_codecs_def)

lemma missing_codec_reads_empty:
  "py_get s ''codec_name'' = Inr JNull \<Longrightarrow> stream_codec s = Inr []"
  by (simp add: stream_codec_def py_or_def lower_def)

lemma missing_lang_reads_empty:
  assumes "py_get s ''tags'' = Inr JNull
           \<or> (\<exists>tags. py_get s ''tags'' = Inr (JObj tags)
                      \<and> py_get (JObj tags) ''language'' = Inr JNull)"
  shows "stream_lang s = Inr []"
  using assms
proof
  assume "py_get s ''tags'' = Inr JNull"
  then show ?thesis by (simp add: stream_lang_def py_or_def lower_def)
next
  assume "\<exists>tags. py_get s ''tags'' = Inr (JObj tags) \<and> py_get (JObj tags) ''language'' = Inr JNull"
  then obtain tags where t: "py_get s ''tags'' = Inr (JObj tags)"
    and l: "py_get (JObj tags) ''language'' = Inr JNull" by blast
  show ?thesis
  proof (cases "tags = []")
    case True
    then show ?thesis using t by (simp add: stream_lang_def py_or_def lower_def)
  next
    case False
    then have "py_or (JObj tags) (JObj []) = JObj tags" by (simp add: py_or_def)
    then show ?thesis using t l by (simp add: stream_lang_def py_or_def lower_def)
  qed
qed

section \<open>Properties of the prober and the runner\<close>

text \<open>On a list of dicts the comprehension is a plain filter.\<close>

lemma audio_only_objects:
  "\<forall>s\<in>set ss. \<exists>fields. s = JObj fields \<Longrightarrow>
   audio_only ss = Inr (filter (\<lambda>s. py_get s ''codec_type'' = Inr (JStr ''audio'')) ss)"
  by (induction ss) auto

text \<open>An exception of \<^verbatim>\<open>json.loads\<close> other than \<^verbatim>\<open>JSONDecodeError\<close> leaves the prober.\<close>

lemma loads_exception_leaves_prober:
  "tool p = LoadsRaised e \<Longrightarrow> ffprobe_audio_streams tool p = Inl e"
  by (simp add: ffprobe_audio_streams_def)

text \<open>Unfolding these runs the runner on a literal record.\<close>

lemmas runner_eval = on_library_management_file_test_def append_issue_def inconclusive_def
  library_defaults_def default_settings_def tool_fails_def tool_prints_def
  ffprobe_audio_streams_def parse_lang_tags_def Let_def

section \<open>The claims\<close>

subsection \<open>C1: what the evaluator returns\<close>

text \<open>
  Claim C1. For every list of stream descriptors, every language filter and either value
  of the TrueHD flag, the evaluator returns true if and only if at least one stream whose
  lowercased language tag passes the filter (the filter is empty, or the tag is one of
  its members) has a lowercased codec name that starts with \<^verbatim>\<open>dts\<close>, and no stream that
  passes the filter has a lowercased codec name that is exactly \<^verbatim>\<open>ac3\<close> or \<^verbatim>\<open>eac3\<close> or,
  when the flag is set, \<^verbatim>\<open>truehd\<close>.
\<close>

theorem evaluate_iff:
  assumes "\<forall>s\<in>set streams. descriptor s"
  shows "has_de_dts_and_no_de_good streams lang_tags treat =
           Inr ((\<exists>s\<in>set streams. (lang_tags = [] \<or> lang_of s \<in> set lang_tags)
                                    \<and> prefix ''dts'' (codec_of s))
                \<and> \<not> (\<exists>s\<in>set streams. (lang_tags = [] \<or> lang_of s \<in> set lang_tags)
                          \<and> codec_of s \<in> (if treat then {''ac3'', ''eac3'', ''truehd''}
                                           else {''ac3'', ''eac3''})))"
proof -
  have "\<forall>s\<in>set streams. readable s" using assms descriptor_readable by blast
  moreover have "good_codecs treat
                 = (if treat then {''ac3'', ''eac3'', ''truehd''} else {''ac3'', ''eac3''})"
    by (auto simp: good_codecs_def)
  ultimately show ?thesis by (simp add: evaluate_char skipped_def)
qed

text \<open>
  Scenario F with the filter at work: \<^verbatim>\<open>DTSHD\<close> with language \<^verbatim>\<open>Deu\<close> is a candidate by
  its prefix. The English AC3 stream beside it does not pass the filter \<^verbatim>\<open>deu\<close>, so the
  file is admitted; under the empty filter the AC3 stream counts and blocks it; under
  the filter \<^verbatim>\<open>eng\<close> the DTS stream does not pass.
\<close>

theorem evaluate_iff_witness:
  "descriptor (audio_stream ''DTSHD'' ''Deu'')
   \<and> descriptor (audio_stream ''AC3'' ''eng'')
   \<and> codec_of (audio_stream ''DTSHD'' ''Deu'') = ''dtshd''
   \<and> lang_of (audio_stream ''DTSHD'' ''Deu'') = ''deu''
   \<and> has_de_dts_and_no_de_good [audio_stream ''DTSHD'' ''Deu'', audio_stream ''AC3'' ''eng'']
        [''deu''] True = Inr True
   \<and> has_de_dts_and_no_de_good [audio_stream ''DTSHD'' ''Deu'', audio_stream ''AC3'' ''eng'']
        [] True = Inr False
   \<and> has_de_dts_and_no_de_good [audio_stream ''DTSHD'' ''Deu'', audio_stream ''AC3'' ''eng'']
        [''eng''] True = Inr False"
  using evaluate_iff [of "[audio_stream ''DTSHD'' ''Deu'', audio_stream ''AC3'' ''eng'']" "[''deu'']" True]
    evaluate_iff [of "[audio_stream ''DTSHD'' ''Deu'', audio_stream ''AC3'' ''eng'']" "[]" True]
    evaluate_iff [of "[audio_stream ''DTSHD'' ''Deu'', audio_stream ''AC3'' ''eng'']" "[''eng'']" True]
  by (simp add: descriptor_audio_stream codec_of_audio_stream lang_of_audio_stream str_eval)

subsection \<open>C7: the tag normalizer\<close>

text \<open>
  Claim C7. For every raw configuration string, \<open>parse_lang_tags\<close> returns exactly the
  comma-separated pieces of the input with surrounding whitespace trimmed, empty pieces
  dropped and each remaining piece lowercased (\<open>normalize_spec\<close>, over \<open>split_comma\<close>,
  whose pieces hold no comma and join back to the input). Every returned token is
  non-empty, lowercase and trimmed. The empty string and \<^verbatim>\<open>None\<close> both give the empty
  list.
\<close>

theorem parse_lang_tags_normalizes:
  "parse_lang_tags None = []
   \<and> parse_lang_tags (Some []) = []
   \<and> parse_lang_tags (Some raw) = normalize_spec raw
   \<and> join_comma (split_comma raw) = raw
   \<and> (\<forall>p\<in>set (split_comma raw). CHR '','' \<notin> set p)
   \<and> (\<forall>t\<in>set (parse_lang_tags (Some raw)). t \<noteq> [] \<and> lower t = t \<and> strip t = t)"
proof -
  have "parse_lang_tags None = []" "parse_lang_tags (Some []) = []"
    by (simp_all add: parse_lang_tags_def)
  moreover have "\<forall>p\<in>set (split_comma raw). CHR '','' \<notin> set p"
    using split_comma_no_comma by blast
  moreover have "\<forall>t\<in>set (parse_lang_tags (Some raw)). t \<noteq> [] \<and> lower t = t \<and> strip t = t"
    using parse_lang_tags_tokens by blast
  ultimately show ?thesis
    using parse_lang_tags_refines [of raw] join_split_comma [of raw] by blast
qed

text \<open>The normalizer on \<^verbatim>\<open>" DEU, de ,,Ger "\<close>.\<close>

theorem parse_lang_tags_normalizes_witness:
  "parse_lang_tags (Some '' DEU, de ,,Ger '') = [''deu'', ''de'', ''ger'']
   \<and> normalize_spec '' DEU, de ,,Ger '' = [''deu'', ''de'', ''ger'']
   \<and> split_comma '' DEU, de ,,Ger '' = ['' DEU'', '' de '', '''', ''Ger '']
   \<and> lower ''deu'' = ''deu'' \<and> strip ''deu'' = ''deu''"
  using parse_lang_tags_normalizes [of "'' DEU, de ,,Ger ''"]
  by (simp add: normalize_spec_def str_eval)

subsection \<open>C5: the order of the streams\<close>

text \<open>
  Claim C5. For every list of stream descriptors, every permutation of it, every language
  filter and either value of the TrueHD flag, the evaluator returns the same on the
  permuted list as on the original list: the same boolean, or
  \<^verbatim>\<open>AttributeError\<close> on both when some stream cannot be read.
\<close>

theorem evaluate_permutation:
  assumes "mset ys = mset xs"
  shows "has_de_dts_and_no_de_good ys lang_tags treat = has_de_dts_and_no_de_good xs lang_tags treat"
proof -
  have "set ys = set xs" using assms by (rule mset_eq_setD)
  then show ?thesis by (simp only: evaluate_char)
qed

text \<open>Scenario B in both orders.\<close>

theorem evaluate_permutation_witness:
  "mset [audio_stream ''ac3'' ''deu'', audio_stream ''dts'' ''deu'']
     = mset [audio_stream ''dts'' ''deu'', audio_stream ''ac3'' ''deu'']
   \<and> has_de_dts_and_no_de_good [audio_stream ''ac3'' ''deu'', audio_stream ''dts'' ''deu'']
        [''deu''] True = Inr False
   \<and> has_de_dts_and_no_de_good [audio_stream ''dts'' ''deu'', audio_stream ''ac3'' ''deu'']
        [''deu''] True = Inr False"
  using evaluate_permutation [of "[audio_stream ''ac3'' ''deu'', audio_stream ''dts'' ''deu'']"
      "[audio_stream ''dts'' ''deu'', audio_stream ''ac3'' ''deu'']" "[''deu'']" True]
  by (simp add: stream_eval str_eval)

subsection \<open>C6: the acceptable codecs\<close>

text \<open>
  Claim C6. The acceptable-codec set is \<^verbatim>\<open>{ac3, eac3}\<close> when the TrueHD flag is false and
  \<^verbatim>\<open>{ac3, eac3, truehd}\<close> when it is true, and that is the set the evaluator uses: beside
  a German DTS stream, a second German stream blocks admission exactly when its lowercased
  codec name is in the set for the flag. In particular (scenario D) the streams TrueHD
  and DTS, both German, are admitted when the flag is false and not when it is true.
\<close>

theorem good_codecs_by_flag:
  "good_codecs False = {''ac3'', ''eac3''}
   \<and> good_codecs True = {''ac3'', ''eac3'', ''truehd''}
   \<and> has_de_dts_and_no_de_good [audio_stream ''dts'' ''deu'', audio_stream codec ''deu'']
        [''deu''] flag
      = Inr (lower codec \<notin> (if flag then {''ac3'', ''eac3'', ''truehd''} else {''ac3'', ''eac3''}))
   \<and> has_de_dts_and_no_de_good [audio_stream ''truehd'' ''deu'', audio_stream ''dts'' ''deu'']
        [''deu''] False = Inr True
   \<and> has_de_dts_and_no_de_good [audio_stream ''truehd'' ''deu'', audio_stream ''dts'' ''deu'']
        [''deu''] True = Inr False"
proof -
  have g: "good_codecs False = {''ac3'', ''eac3''}"
      "good_codecs True = {''ac3'', ''eac3'', ''truehd''}"
    by (auto simp: good_codecs_def)
  have r: "\<forall>s\<in>set [audio_stream ''dts'' ''deu'', audio_stream codec ''deu'']. readable s"
    by (simp add: descriptor_readable descriptor_audio_stream)
  have a: "has_de_dts_and_no_de_good [audio_stream ''dts'' ''deu'', audio_stream codec ''deu'']
        [''deu''] flag
      = Inr (lower codec \<notin> (if flag then {''ac3'', ''eac3'', ''truehd''} else {''ac3'', ''eac3''}))"
    unfolding evaluate_char using r
    by (cases flag)
      (auto simp add: g codec_of_audio_stream lang_of_audio_stream lower_deu lower_dts skipped_def)
  have d: "has_de_dts_and_no_de_good [audio_stream ''truehd'' ''deu'', audio_stream ''dts'' ''deu'']
        [''deu''] False = Inr True"
     "has_de_dts_and_no_de_good [audio_stream ''truehd'' ''deu'', audio_stream ''dts'' ''deu'']
        [''deu''] True = Inr False"
    by (simp_all add: stream_eval str_eval)
  show ?thesis using g a d by blast
qed

text \<open>A stream \<^verbatim>\<open>TrueHD\<close> beside the DTS stream, under both values of the flag.\<close>

theorem good_codecs_by_flag_witness:
  "has_de_dts_and_no_de_good [audio_stream ''dts'' ''deu'', audio_stream ''TrueHD'' ''deu'']
        [''deu''] True = Inr False
   \<and> has_de_dts_and_no_de_good [audio_stream ''dts'' ''deu'', audio_stream ''TrueHD'' ''deu'']
        [''deu''] False = Inr True"
  using good_codecs_by_flag [of "''TrueHD''" True] good_codecs_by_flag [of "''TrueHD''" False]
  by (simp add: str_eval)

subsection \<open>C8: the empty filter\<close>

text \<open>
  Claim C8. For every list of stream descriptors and either value of the TrueHD flag, when
  the language filter is empty no stream is skipped, whatever its language tag: the
  evaluator returns what the codec names of all the streams say, and the language tags
  do not occur in the result.
\<close>

theorem empty_filter_skips_nothing:
  assumes "\<forall>s\<in>set streams. descriptor s"
  shows "(\<forall>s\<in>set streams. \<not> skipped [] (lang_of s))
         \<and> has_de_dts_and_no_de_good streams [] treat =
             Inr ((\<exists>s\<in>set streams. prefix ''dts'' (codec_of s))
                  \<and> \<not> (\<exists>s\<in>set streams. codec_of s \<in> good_codecs treat))"
proof -
  have "\<forall>s\<in>set streams. readable s" using assms descriptor_readable by blast
  then show ?thesis by (simp add: evaluate_char skipped_def)
qed

text \<open>
  An English DTS stream and a stream with no tags at all: admitted under the empty
  filter, not under the filter \<^verbatim>\<open>deu\<close>.
\<close>

theorem empty_filter_skips_nothing_witness:
  "descriptor (audio_stream ''dts'' ''eng'')
   \<and> descriptor (JObj [(''codec_name'', JStr ''aac'')])
   \<and> has_de_dts_and_no_de_good
        [audio_stream ''dts'' ''eng'', JObj [(''codec_name'', JStr ''aac'')]] [] True = Inr True
   \<and> has_de_dts_and_no_de_good
        [audio_stream ''dts'' ''eng'', JObj [(''codec_name'', JStr ''aac'')]] [''deu''] True = Inr False"
  using empty_filter_skips_nothing
    [of "[audio_stream ''dts'' ''eng'', JObj [(''codec_name'', JStr ''aac'')]]" True]
  by (simp add: stream_eval str_eval)

subsection \<open>C2: the prober and exceptions\<close>

text \<open>
  Claim C2 says that the prober never raises, whatever the tool prints. The code catches
  every exception of the invocation and \<^verbatim>\<open>JSONDecodeError\<close> of the decoding, and then
  trusts the shape of the decoded document. When the tool prints the JSON array
  \<^verbatim>\<open>[]\<close>, the call \<^verbatim>\<open>data.get("streams")\<close> raises \<^verbatim>\<open>AttributeError\<close>, which reaches the
  caller.
\<close>

theorem probe_raises_on_array:
  "ffprobe_audio_streams (tool_prints (JArr [])) ''movie.mkv'' = Inl AttributeError"
  by (simp add: ffprobe_audio_streams_def tool_prints_def)

text \<open>
  Claim C2, amended. The prober returns the empty list when the invocation of the tool
  raises an exception, and when \<^verbatim>\<open>json.loads\<close> raises \<^verbatim>\<open>JSONDecodeError\<close> on the tool's
  output. When the output decodes to a JSON object it raises nothing either, provided
  the \<^verbatim>\<open>streams\<close> entry is absent, null or otherwise falsy (the result is the empty list)
  or is a list of objects (the result is the list of those whose \<^verbatim>\<open>codec_type\<close> is
  \<^verbatim>\<open>audio\<close>, in order). Nothing is said of the other outcomes: another exception of
  \<^verbatim>\<open>json.loads\<close>, or a decoded document of another shape.
\<close>

theorem probe_returns_on_schema:
  "(tool p = RunRaised \<or> tool p = DecodeRaised \<longrightarrow> ffprobe_audio_streams tool p = Inr [])
   \<and> (tool p = Decoded (JObj kvs)
        \<and> \<not> truthy (case map_of kvs ''streams'' of None \<Rightarrow> JNull | Some v \<Rightarrow> v)
       \<longrightarrow> ffprobe_audio_streams tool p = Inr [])
   \<and> (tool p = Decoded (JObj kvs) \<and> map_of kvs ''streams'' = Some (JArr ss)
        \<and> (\<forall>s\<in>set ss. \<exists>fields. s = JObj fields)
       \<longrightarrow> ffprobe_audio_streams tool p
             = Inr (filter (\<lambda>s. py_get s ''codec_type'' = Inr (JStr ''audio'')) ss))"
proof (intro conjI impI)
  assume "tool p = RunRaised \<or> tool p = DecodeRaised"
  then show "ffprobe_audio_streams tool p = Inr []"
    by (auto simp: ffprobe_audio_streams_def)
next
  assume "tool p = Decoded (JObj kvs)
        \<and> \<not> truthy (case map_of kvs ''streams'' of None \<Rightarrow> JNull | Some v \<Rightarrow> v)"
  then show "ffprobe_audio_streams tool p = Inr []"
    by (simp add: ffprobe_audio_streams_def py_or_def)
next
  assume a: "tool p = Decoded (JObj kvs) \<and> map_of kvs ''streams'' = Some (JArr ss)
        \<and> (\<forall>s\<in>set ss. \<exists>fields. s = JObj fields)"
  then have "audio_only ss = Inr (filter (\<lambda>s. py_get s ''codec_type'' = Inr (JStr ''audio'')) ss)"
    using audio_only_objects by blast
  then show "ffprobe_audio_streams tool p
             = Inr (filter (\<lambda>s. py_get s ''codec_type'' = Inr (JStr ''audio'')) ss)"
    using a by (cases ss) (simp_all add: ffprobe_audio_streams_def py_or_def)
qed

text \<open>
  A tool that fails, a tool that prints \<^verbatim>\<open>{}\<close>, and a tool that reports a DTS audio
  stream and a video stream.
\<close>

theorem probe_returns_on_schema_witness:
  "ffprobe_audio_streams tool_fails ''movie.mkv'' = Inr []
   \<and> ffprobe_audio_streams (tool_prints (JObj [])) ''movie.mkv'' = Inr []
   \<and> ffprobe_audio_streams
        (tool_prints (JObj [(''streams'',
           JArr [audio_stream ''dts'' ''deu'', JObj [(''codec_type'', JStr ''video'')]])]))
        ''movie.mkv''
      = Inr [audio_stream ''dts'' ''deu'']"
  using probe_returns_on_schema [of tool_fails "''movie.mkv''" "[]" "[]"]
    probe_returns_on_schema [of "tool_prints (JObj [])" "''movie.mkv''" "[]" "[]"]
    probe_returns_on_schema [of "tool_prints (JObj [(''streams'',
           JArr [audio_stream ''dts'' ''deu'', JObj [(''codec_type'', JStr ''video'')]])])"
      "''movie.mkv''"
      "[(''streams'', JArr [audio_stream ''dts'' ''deu'', JObj [(''codec_type'', JStr ''video'')]])]"
      "[audio_stream ''dts'' ''deu'', JObj [(''codec_type'', JStr ''video'')]]"]
  by (simp add: tool_fails_def tool_prints_def audio_stream_def)

subsection \<open>C3: inconclusive probing\<close>

text \<open>
  Claim C3. For every invocation of the runner in which probing is inconclusive (no path
  is supplied, or the prober returns no stream), the runner returns the record it was
  given with one diagnostic appended to \<^verbatim>\<open>issues\<close> and nothing else changed; in
  particular \<^verbatim>\<open>add_file_to_pending_tasks\<close> keeps its value.
\<close>

theorem inconclusive_keeps_flag:
  assumes "inconclusive tool d"
  shows "\<exists>msg. on_library_management_file_test get_settings tool d
                 = Inr (d\<lparr>issues := issues d @ [\<lparr>issue_id = plugin_id, message = msg\<rparr>]\<rparr>)
               \<and> add_file_to_pending_tasks
                    (d\<lparr>issues := issues d @ [\<lparr>issue_id = plugin_id, message = msg\<rparr>]\<rparr>)
                  = add_file_to_pending_tasks d"
  using assms
  by (auto simp: inconclusive_def on_library_management_file_test_def append_issue_def Let_def
      split: option.splits)

text \<open>Scenario E: the tool fails, and the flag set by an earlier plugin stays.\<close>

theorem inconclusive_keeps_flag_witness:
  "inconclusive tool_fails
     \<lparr>library_id = 1, path = Some ''movie.mkv'', issues = [],
      add_file_to_pending_tasks = Some True\<rparr>
   \<and> on_library_management_file_test library_defaults tool_fails
       \<lparr>library_id = 1, path = Some ''movie.mkv'', issues = [],
        add_file_to_pending_tasks = Some True\<rparr>
     = Inr \<lparr>library_id = 1, path = Some ''movie.mkv'',
            issues = [\<lparr>issue_id = plugin_id, message = msg_no_streams\<rparr>],
            add_file_to_pending_tasks = Some True\<rparr>"
  using inconclusive_keeps_flag [of tool_fails
      "\<lparr>library_id = 1, path = Some ''movie.mkv'', issues = [],
        add_file_to_pending_tasks = Some True\<rparr>" library_defaults]
  by (simp add: runner_eval)

subsection \<open>C4: the flag follows the evaluator\<close>

text \<open>
  Claim C4 says that whenever the prober yields a non-empty list of streams the runner
  sets \<^verbatim>\<open>add_file_to_pending_tasks\<close>, never leaving it unset. The prober keeps every dict
  whose \<^verbatim>\<open>codec_type\<close> is \<^verbatim>\<open>audio\<close>, and the evaluator calls \<^verbatim>\<open>lower\<close> on its codec name.
  When the tool reports the codec name 5, a number, the prober returns that one stream,
  the evaluator raises \<^verbatim>\<open>AttributeError\<close>, and the exception leaves the runner before
  either assignment to the flag.
\<close>

theorem numeric_codec_name_leaves_flag_unset:
  "ffprobe_audio_streams
     (tool_prints (JObj [(''streams'',
        JArr [JObj [(''codec_type'', JStr ''audio''), (''codec_name'', JInt 5)]])]))
     ''movie.mkv''
   = Inr [JObj [(''codec_type'', JStr ''audio''), (''codec_name'', JInt 5)]]
   \<and> on_library_management_file_test library_defaults
       (tool_prints (JObj [(''streams'',
          JArr [JObj [(''codec_type'', JStr ''audio''), (''codec_name'', JInt 5)]])]))
       \<lparr>library_id = 1, path = Some ''movie.mkv'', issues = [],
        add_file_to_pending_tasks = None\<rparr>
     = Inl AttributeError"
  by (simp add: on_library_management_file_test_def ffprobe_audio_streams_def tool_prints_def
      py_or_def has_de_dts_and_no_de_good_def stream_codec_def Let_def)

text \<open>
  Claim C4, amended. For every invocation in which a path is supplied and the prober
  returns a non-empty list of streams: when the evaluator returns a boolean for them
  under the library's settings, the runner returns with \<^verbatim>\<open>add_file_to_pending_tasks\<close> set
  to exactly that boolean (and the matching diagnostic appended), never left unset; and
  the evaluator does return a boolean when every stream is a stream descriptor.
\<close>

theorem streams_set_flag:
  assumes "path d = Some p" and "p \<noteq> []"
    and "ffprobe_audio_streams tool p = Inr streams" and "streams \<noteq> []"
  shows "(has_de_dts_and_no_de_good streams
            (parse_lang_tags (preferred_language_tags (get_settings (library_id d))))
            (treat_truehd_as_good_codec (get_settings (library_id d))) = Inr candidate
          \<longrightarrow> on_library_management_file_test get_settings tool d
                = Inr (append_issue (if candidate then msg_candidate else msg_ignored)
                         (d\<lparr>add_file_to_pending_tasks := Some candidate\<rparr>))
              \<and> add_file_to_pending_tasks
                   (append_issue (if candidate then msg_candidate else msg_ignored)
                      (d\<lparr>add_file_to_pending_tasks := Some candidate\<rparr>))
                 = Some candidate)
         \<and> ((\<forall>s\<in>set streams. descriptor s)
              \<longrightarrow> (\<exists>b. has_de_dts_and_no_de_good streams
                         (parse_lang_tags (preferred_language_tags (get_settings (library_id d))))
                         (treat_truehd_as_good_codec (get_settings (library_id d))) = Inr b))"
proof (intro conjI impI)
  assume "has_de_dts_and_no_de_good streams
            (parse_lang_tags (preferred_language_tags (get_settings (library_id d))))
            (treat_truehd_as_good_codec (get_settings (library_id d))) = Inr candidate"
  then show "on_library_management_file_test get_settings tool d
                = Inr (append_issue (if candidate then msg_candidate else msg_ignored)
                         (d\<lparr>add_file_to_pending_tasks := Some candidate\<rparr>))"
    using assms by (simp add: on_library_management_file_test_def Let_def)
next
  show "add_file_to_pending_tasks
          (append_issue (if candidate then msg_candidate else msg_ignored)
             (d\<lparr>add_file_to_pending_tasks := Some candidate\<rparr>))
        = Some candidate"
    by (simp add: append_issue_def)
next
  assume "\<forall>s\<in>set streams. descriptor s"
  then have "\<forall>s\<in>set streams. readable s" using descriptor_readable by blast
  then show "\<exists>b. has_de_dts_and_no_de_good streams
                 (parse_lang_tags (preferred_language_tags (get_settings (library_id d))))
                 (treat_truehd_as_good_codec (get_settings (library_id d))) = Inr b"
    by (simp add: evaluate_char)
qed

text \<open>A file with one German DTS stream, under the default settings.\<close>

theorem streams_set_flag_witness:
  "on_library_management_file_test library_defaults
     (tool_prints (JObj [(''streams'', JArr [audio_stream ''dts'' ''deu''])]))
     \<lparr>library_id = 1, path = Some ''movie.mkv'', issues = [],
      add_file_to_pending_tasks = None\<rparr>
   = Inr \<lparr>library_id = 1, path = Some ''movie.mkv'',
          issues = [\<lparr>issue_id = plugin_id, message = msg_candidate\<rparr>],
          add_file_to_pending_tasks = Some True\<rparr>
   \<and> descriptor (audio_stream ''dts'' ''deu'')"
proof -
  let ?tool = "tool_prints (JObj [(''streams'', JArr [audio_stream ''dts'' ''deu''])])"
  let ?d = "\<lparr>library_id = 1, path = Some ''movie.mkv'', issues = [],
             add_file_to_pending_tasks = None\<rparr>"
  have h1: "path ?d = Some ''movie.mkv''" and h2: "''movie.mkv'' \<noteq> []" by simp_all
  have h3: "ffprobe_audio_streams ?tool ''movie.mkv'' = Inr [audio_stream ''dts'' ''deu'']"
    by (simp add: ffprobe_audio_streams_def tool_prints_def audio_stream_def py_or_def)
  have h4: "[audio_stream ''dts'' ''deu''] \<noteq> []" by simp
  have h5: "has_de_dts_and_no_de_good [audio_stream ''dts'' ''deu'']
           (parse_lang_tags (preferred_language_tags (library_defaults (library_id ?d))))
           (treat_truehd_as_good_codec (library_defaults (library_id ?d))) = Inr True"
    by (simp add: library_defaults_def default_settings_def parse_lang_tags_def
        stream_eval str_eval)
  show ?thesis
    using streams_set_flag [where get_settings = library_defaults and candidate = True,
        OF h1 h2 h3 h4] h5
    by (simp add: append_issue_def descriptor_audio_stream)
qed

subsection \<open>C9: one diagnostic on every path\<close>

text \<open>
  Claim C9. Whenever the runner returns (missing path, no streams, evaluator true,
  evaluator false), \<^verbatim>\<open>issues\<close> is what it was before followed by exactly one new entry,
  whose id is \<^verbatim>\<open>de_dts_without_de_ac3_eac3_truehd\<close> and which carries a message; the
  entries that were there are neither removed nor changed.
\<close>

theorem one_issue_appended:
  assumes "on_library_management_file_test get_settings tool d = Inr d'"
  shows "plugin_id = ''de_dts_without_de_ac3_eac3_truehd''
         \<and> (\<exists>msg. issues d' = issues d @ [\<lparr>issue_id = plugin_id, message = msg\<rparr>])"
  using assms
  by (auto simp: on_library_management_file_test_def append_issue_def Let_def plugin_id_def
      split: option.splits if_splits sum.splits)

text \<open>An entry of another plugin is kept when the path is missing.\<close>

theorem one_issue_appended_witness:
  "on_library_management_file_test library_defaults tool_fails
     \<lparr>library_id = 1, path = None,
      issues = [\<lparr>issue_id = ''other_plugin'', message = ''kept''\<rparr>],
      add_file_to_pending_tasks = None\<rparr>
   = Inr \<lparr>library_id = 1, path = None,
          issues = [\<lparr>issue_id = ''other_plugin'', message = ''kept''\<rparr>,
                    \<lparr>issue_id = ''de_dts_without_de_ac3_eac3_truehd'', message = msg_no_path\<rparr>],
          add_file_to_pending_tasks = None\<rparr>"
proof -
  let ?d = "\<lparr>library_id = 1, path = None,
      issues = [\<lparr>issue_id = ''other_plugin'', message = ''kept''\<rparr>],
      add_file_to_pending_tasks = None\<rparr>"
  have r: "on_library_management_file_test library_defaults tool_fails ?d
           = Inr (append_issue msg_no_path ?d)"
    by (simp add: on_library_management_file_test_def Let_def)
  from one_issue_appended [OF r] have "plugin_id = ''de_dts_without_de_ac3_eac3_truehd''"
    by blast
  then show ?thesis using r by (simp add: append_issue_def)
qed

subsection \<open>C10: missing fields\<close>

text \<open>
  Claim C10 says of every stream descriptor in which the codec name, the tags or the
  language tag is absent or null that the stream counts as neither a DTS candidate nor
  an acceptable codec. A descriptor with the codec name \<^verbatim>\<open>dts\<close> and no tags is such a
  stream, and under the empty filter it is the DTS candidate that admits the file.
\<close>

theorem tagless_dts_counts:
  "descriptor (JObj [(''codec_name'', JStr ''dts'')])
   \<and> py_get (JObj [(''codec_name'', JStr ''dts'')]) ''tags'' = Inr JNull
   \<and> has_de_dts_and_no_de_good [JObj [(''codec_name'', JStr ''dts'')]] [] True = Inr True"
  by (simp add: stream_eval str_eval)

text \<open>
  Claim C10, amended. The evaluator reads each missing value as the empty string on its
  own and does not fail on a stream descriptor. A stream whose codec name is absent or
  null has the codec \<^verbatim>\<open>""\<close> and counts as neither a DTS candidate nor an acceptable codec:
  taking it out of the list changes nothing. A stream whose tags or language tag is
  absent or null has the language \<^verbatim>\<open>""\<close> and is skipped exactly when the filter that the
  normalizer produced from the configuration is non-empty; under such a filter, taking
  it out of the list changes nothing.
\<close>

theorem missing_fields_read_empty:
  assumes "descriptor s"
  shows "(\<exists>b. has_de_dts_and_no_de_good [s] lang_tags treat = Inr b)
     \<and> (py_get s ''codec_name'' = Inr JNull \<longrightarrow>
          stream_codec s = Inr []
          \<and> has_de_dts_and_no_de_good (xs @ s # ys) lang_tags treat
            = has_de_dts_and_no_de_good (xs @ ys) lang_tags treat)
     \<and> (py_get s ''tags'' = Inr JNull
          \<or> (\<exists>tags. py_get s ''tags'' = Inr (JObj tags)
                     \<and> py_get (JObj tags) ''language'' = Inr JNull) \<longrightarrow>
          stream_lang s = Inr []
          \<and> (skipped (parse_lang_tags raw) (lang_of s) \<longleftrightarrow> parse_lang_tags raw \<noteq> [])
          \<and> (parse_lang_tags raw \<noteq> [] \<longrightarrow>
               has_de_dts_and_no_de_good (xs @ s # ys) (parse_lang_tags raw) treat
               = has_de_dts_and_no_de_good (xs @ ys) (parse_lang_tags raw) treat))"
proof (intro conjI impI)
  have r: "readable s" using assms by (rule descriptor_readable)
  show "\<exists>b. has_de_dts_and_no_de_good [s] lang_tags treat = Inr b"
    using r by (simp add: evaluate_char)
  {
    assume c: "py_get s ''codec_name'' = Inr JNull"
    then show sc: "stream_codec s = Inr []" by (rule missing_codec_reads_empty)
    then have "codec_of s = []" by (simp add: codec_of_def)
    then show "has_de_dts_and_no_de_good (xs @ s # ys) lang_tags treat
            = has_de_dts_and_no_de_good (xs @ ys) lang_tags treat"
      using r by (intro evaluate_drop_neutral) (simp_all add: empty_not_good)
  }
  {
    assume t: "py_get s ''tags'' = Inr JNull
          \<or> (\<exists>tags. py_get s ''tags'' = Inr (JObj tags)
                     \<and> py_get (JObj tags) ''language'' = Inr JNull)"
    then show sl: "stream_lang s = Inr []" by (rule missing_lang_reads_empty)
    then have l: "lang_of s = []" by (simp add: lang_of_def)
    show sk: "skipped (parse_lang_tags raw) (lang_of s) \<longleftrightarrow> parse_lang_tags raw \<noteq> []"
      using empty_token_not_parsed [of raw] by (simp add: skipped_def l)
    {
      assume "parse_lang_tags raw \<noteq> []"
      then have "skipped (parse_lang_tags raw) (lang_of s)" using sk by simp
      then show "has_de_dts_and_no_de_good (xs @ s # ys) (parse_lang_tags raw) treat
               = has_de_dts_and_no_de_good (xs @ ys) (parse_lang_tags raw) treat"
        using r by (intro evaluate_drop_neutral) simp_all
    }
  }
qed

text \<open>A stream with no fields at all, beside a German DTS stream, under the default filter.\<close>

theorem missing_fields_read_empty_witness:
  "descriptor (JObj [])
   \<and> stream_codec (JObj []) = Inr []
   \<and> stream_lang (JObj []) = Inr []
   \<and> skipped (parse_lang_tags (Some ''deu,de,ger'')) (lang_of (JObj []))
   \<and> has_de_dts_and_no_de_good [JObj [], audio_stream ''dts'' ''deu'']
        (parse_lang_tags (Some ''deu,de,ger'')) True
     = has_de_dts_and_no_de_good [audio_stream ''dts'' ''deu'']
        (parse_lang_tags (Some ''deu,de,ger'')) True"
  using missing_fields_read_empty [of "JObj []" "[''deu'', ''de'', ''ger'']" True "[]"
      "[audio_stream ''dts'' ''deu'']" "Some ''deu,de,ger''"]
  by (simp add: parse_lang_tags_def str_eval)

end
